theory Spec2Isabelle
  imports Main "HOL-Library.Word" "HOL-Library.Multiset"
begin

section \<open>Wire protocol constants\<close>

text \<open>
  The server and the client of \<^verbatim>\<open>war.py\<close> exchange byte strings. A byte is an
  8-bit word, a byte string a list of them. The two enumerations of the source carry
  the byte values of the command tag and of the result payload.
\<close>

type_synonym byte = "8 word"
type_synonym bytes = "byte list"

datatype Command = WANTGAME | GAMESTART | PLAYCARD | PLAYRESULT

fun Command_value :: "Command \<Rightarrow> int" where
  "Command_value WANTGAME = 0"
| "Command_value GAMESTART = 1"
| "Command_value PLAYCARD = 2"
| "Command_value PLAYRESULT = 3"

datatype Result = WIN | DRAW | LOSE

fun Result_value :: "Result \<Rightarrow> int" where
  "Result_value WIN = 0"
| "Result_value DRAW = 1"
| "Result_value LOSE = 2"

section \<open>compare_cards\<close>

text \<open>
  \<^verbatim>\<open>compare_cards(card1, card2)\<close> on Python integers. Both arguments are reduced
  modulo 13 (Python's \<^verbatim>\<open>%\<close> with a positive modulus is the floored remainder, as
  \<open>mod\<close> on \<open>int\<close> is), then compared by three successive tests; the source ends
  with \<^verbatim>\<open>return None\<close>, which is the value \<open>None\<close> here.
\<close>

definition compare_cards :: "int \<Rightarrow> int \<Rightarrow> int option" where
  "compare_cards card1 card2 =
     (let c1 = card1 mod 13; c2 = card2 mod 13 in
      if c1 < c2 then Some (- 1)
      else if c1 = c2 then Some 0
      else if c1 > c2 then Some 1
      else None)"

section \<open>Sockets\<close>

text \<open>
  The operating system's sockets are outside the repository; the model gives each
  connection a script of what the network will do. \<open>inbox\<close> lists what the
  successive \<^verbatim>\<open>recv\<close> calls meet: a chunk of bytes that has arrived (never empty:
  \<open>Data b bs\<close> is the chunk \<open>b # bs\<close>) or a failure of the call; when the script is
  used up the peer has closed its side and \<^verbatim>\<open>recv\<close> returns the empty byte string,
  at every later call too. \<open>send_ok\<close> lists whether the successive \<^verbatim>\<open>sendall\<close>
  calls succeed (a script that is used up means success). \<open>sent\<close> records every
  \<^verbatim>\<open>sendall\<close> call, with the message and whether it was delivered, and \<open>closes\<close>
  counts the \<^verbatim>\<open>close\<close> calls. A call that blocks for ever is outside the model: every
  call returns or raises.

  \<^verbatim>\<open>socket.error\<close> is Python's \<^verbatim>\<open>OSError\<close>; \<^verbatim>\<open>recv\<close> and \<^verbatim>\<open>sendall\<close> on a socket that
  has been closed raise it (bad file descriptor).
\<close>

datatype exn = SocketError | StructError | UnboundLocalError

datatype recv_event = Data byte bytes | RecvFails

record sock =
  inbox :: "recv_event list"
  send_ok :: "bool list"
  sent :: "(bytes \<times> bool) list"
  closes :: nat

definition connection :: "recv_event list \<Rightarrow> bool list \<Rightarrow> sock" where
  "connection evs oks = \<lparr>inbox = evs, send_ok = oks, sent = [], closes = 0\<rparr>"

definition recv :: "sock \<Rightarrow> nat \<Rightarrow> (exn + bytes) \<times> sock" where
  "recv s bufsize =
     (if closes s > 0 then (Inl SocketError, s)
      else case inbox s of
        [] \<Rightarrow> (Inr [], s)
      | RecvFails # evs \<Rightarrow> (Inl SocketError, s\<lparr>inbox := evs\<rparr>)
      | Data b bs # evs \<Rightarrow>
          (case drop bufsize (b # bs) of
             [] \<Rightarrow> (Inr (b # bs), s\<lparr>inbox := evs\<rparr>)
           | r # rs \<Rightarrow> (Inr (take bufsize (b # bs)), s\<lparr>inbox := Data r rs # evs\<rparr>)))"

definition sendall :: "sock \<Rightarrow> bytes \<Rightarrow> (exn + unit) \<times> sock" where
  "sendall s msg =
     (if closes s > 0 then (Inl SocketError, s\<lparr>sent := sent s @ [(msg, False)]\<rparr>)
      else case send_ok s of
        [] \<Rightarrow> (Inr (), s\<lparr>sent := sent s @ [(msg, True)]\<rparr>)
      | ok # oks \<Rightarrow>
          if ok then (Inr (), s\<lparr>send_ok := oks, sent := sent s @ [(msg, True)]\<rparr>)
          else (Inl SocketError, s\<lparr>send_ok := oks, sent := sent s @ [(msg, False)]\<rparr>))"

definition close :: "sock \<Rightarrow> sock" where
  "close s = s\<lparr>closes := Suc (closes s)\<rparr>"

text \<open>
  \<open>can_send s\<close>: the next \<^verbatim>\<open>sendall\<close> call on \<open>s\<close> succeeds (the socket is open and
  the network accepts the message).
\<close>

definition can_send :: "sock \<Rightarrow> bool" where
  "can_send s = (closes s = 0 \<and> (case send_ok s of [] \<Rightarrow> True | ok # oks \<Rightarrow> ok))"

text \<open>
  \<open>plays cs\<close>: the PlayCard messages for the cards \<open>cs\<close>, one per round, each
  arriving whole as one chunk (tag 2, then the card).
\<close>

definition plays :: "bytes \<Rightarrow> recv_event list" where
  "plays cs = map (\<lambda>c. Data 2 [c]) cs"

section \<open>readexactly\<close>

text \<open>
  \<^verbatim>\<open>readexactly(sock, numbytes)\<close>: one \<^verbatim>\<open>recv(numbytes)\<close>, then a \<^verbatim>\<open>while\<close> loop that
  appends a further \<^verbatim>\<open>recv(numbytes)\<close> as long as fewer than \<open>numbytes\<close> bytes have
  been received. The loop has no other exit, so it is a partial function: \<open>None\<close> is
  the run that never returns. An exception of \<^verbatim>\<open>recv\<close> leaves the function (\<open>Inl\<close>).
\<close>

partial_function (option) readexactly_loop ::
  "sock \<Rightarrow> nat \<Rightarrow> bytes \<Rightarrow> ((exn + bytes) \<times> sock) option" where
  "readexactly_loop s numbytes recieved_data =
     (if length recieved_data < numbytes then
        (case recv s numbytes of
           (Inl e, s') \<Rightarrow> Some (Inl e, s')
         | (Inr d, s') \<Rightarrow> readexactly_loop s' numbytes (recieved_data @ d))
      else Some (Inr recieved_data, s))"

definition readexactly :: "sock \<Rightarrow> nat \<Rightarrow> ((exn + bytes) \<times> sock) option" where
  "readexactly s numbytes =
     (case recv s numbytes of
        (Inl e, s') \<Rightarrow> Some (Inl e, s')
      | (Inr recieved_data, s') \<Rightarrow> readexactly_loop s' numbytes recieved_data)"

section \<open>kill_game\<close>

text \<open>A game is the pair of the two players' sockets; \<^verbatim>\<open>kill_game\<close> closes both.\<close>

type_synonym game = "sock \<times> sock"

definition kill_game :: "game \<Rightarrow> game" where
  "kill_game game = (close (fst game), close (snd game))"

section \<open>deal_cards\<close>

text \<open>
  \<^verbatim>\<open>struct.pack('<n>B', ...)\<close> takes exactly n integers, each in 0..255, and raises
  \<^verbatim>\<open>struct.error\<close> otherwise. \<^verbatim>\<open>struct.unpack('2B', b)\<close> takes a byte string of
  length 2 and returns its two bytes as a pair.
\<close>

definition struct_pack_B :: "nat \<Rightarrow> int list \<Rightarrow> exn + bytes" where
  "struct_pack_B n args =
     (if length args = n \<and> list_all (\<lambda>v. 0 \<le> v \<and> v \<le> 255) args
      then Inr (map word_of_int args) else Inl StructError)"

definition struct_unpack_2B :: "bytes \<Rightarrow> exn + (byte \<times> byte)" where
  "struct_unpack_2B b = (case b of [x, y] \<Rightarrow> Inr (x, y) | _ \<Rightarrow> Inl StructError)"

text \<open>
  \<^verbatim>\<open>deal_cards()\<close>. \<^verbatim>\<open>random.shuffle\<close> is the library's; it is the parameter
  \<open>shuffle\<close>, applied to \<^verbatim>\<open>list(range(52))\<close>. The two halves of the shuffled deck
  are packed behind the GAMESTART tag.
\<close>

definition deal_cards :: "(int list \<Rightarrow> int list) \<Rightarrow> exn + (bytes \<times> bytes)" where
  "deal_cards shuffle =
     (let card_deck = shuffle [0..51];
          player_one_deck = take 26 card_deck;
          player_two_deck = drop 26 card_deck
      in case struct_pack_B 27 (Command_value GAMESTART # player_one_deck) of
           Inl e \<Rightarrow> Inl e
         | Inr player_one_hand \<Rightarrow>
             (case struct_pack_B 27 (Command_value GAMESTART # player_two_deck) of
                Inl e \<Rightarrow> Inl e
              | Inr player_two_hand \<Rightarrow> Inr (player_one_hand, player_two_hand)))"

section \<open>handle_game_clients\<close>

text \<open>
  A \<^verbatim>\<open>try\<close> block of the source that sends one message to each player and, on
  \<^verbatim>\<open>socket.error\<close>, logs and calls \<^verbatim>\<open>kill_game\<close> (the hands before the first round,
  the results at the end of each round). When the first \<^verbatim>\<open>sendall\<close> raises, the
  second is not called. Execution goes on after the \<^verbatim>\<open>except\<close> clause in both
  blocks: neither has a \<^verbatim>\<open>return\<close>.
\<close>

definition try_send_both :: "bytes \<Rightarrow> bytes \<Rightarrow> game \<Rightarrow> game" where
  "try_send_both m1 m2 game =
     (case sendall (fst game) m1 of
        (Inl e, p1) \<Rightarrow> kill_game (p1, snd game)
      | (Inr u, p1) \<Rightarrow>
          (case sendall (snd game) m2 of
             (Inl e, p2) \<Rightarrow> kill_game (p1, p2)
           | (Inr u', p2) \<Rightarrow> (p1, p2)))"

text \<open>
  The local variables of \<^verbatim>\<open>handle_game_clients\<close> that live across the rounds.
  \<open>player_one_play_card\<close> and \<open>player_two_play_card\<close> are unbound (\<open>None\<close>) until a
  \<^verbatim>\<open>recv\<close> of a round has returned. \<open>player_one_data\<close> and \<open>player_two_data\<close> hold
  the two bytes of the WantGame message first (they equal \<^verbatim>\<open>b'\0\0'\<close> when the loop
  is reached) and the unpacked pair of a round later; the source only indexes them at
  0 and 1.
\<close>

record locals =
  player_one_play_card :: "bytes option"
  player_two_play_card :: "bytes option"
  player_one_data :: "byte \<times> byte"
  player_two_data :: "byte \<times> byte"

text \<open>
  The first \<^verbatim>\<open>try\<close> block of a round: both \<^verbatim>\<open>recv(2)\<close> calls; on \<^verbatim>\<open>socket.error\<close>
  the game is killed and execution goes on with the variables as they were.
\<close>

definition recv_play_cards :: "locals \<Rightarrow> game \<Rightarrow> locals \<times> game" where
  "recv_play_cards L game =
     (case recv (fst game) 2 of
        (Inl e, p1) \<Rightarrow> (L, kill_game (p1, snd game))
      | (Inr d1, p1) \<Rightarrow>
          (case recv (snd game) 2 of
             (Inl e, p2) \<Rightarrow> (L\<lparr>player_one_play_card := Some d1\<rparr>, kill_game (p1, p2))
           | (Inr d2, p2) \<Rightarrow>
               (L\<lparr>player_one_play_card := Some d1, player_two_play_card := Some d2\<rparr>,
                (p1, p2))))"

text \<open>
  The second \<^verbatim>\<open>try\<close> block: both \<^verbatim>\<open>struct.unpack\<close> calls. Only \<^verbatim>\<open>struct.error\<close> is
  caught (the game is killed and execution goes on); reading an unbound variable
  raises \<^verbatim>\<open>UnboundLocalError\<close>, which leaves the function.
\<close>

definition unpack_play_cards :: "locals \<Rightarrow> game \<Rightarrow> exn + (locals \<times> game)" where
  "unpack_play_cards L game =
     (case player_one_play_card L of
        None \<Rightarrow> Inl UnboundLocalError
      | Some m1 \<Rightarrow>
          (case struct_unpack_2B m1 of
             Inl e \<Rightarrow> Inr (L, kill_game game)
           | Inr t1 \<Rightarrow>
               (case player_two_play_card L of
                  None \<Rightarrow> Inl UnboundLocalError
                | Some m2 \<Rightarrow>
                    (case struct_unpack_2B m2 of
                       Inl e \<Rightarrow> Inr (L\<lparr>player_one_data := t1\<rparr>, kill_game game)
                     | Inr t2 \<Rightarrow>
                         Inr (L\<lparr>player_one_data := t1, player_two_data := t2\<rparr>, game)))))"

text \<open>
  The result messages of a round from the value of \<^verbatim>\<open>compare_cards\<close>: player one's
  message first. Any value other than -1 and 1 takes the \<^verbatim>\<open>else\<close> branch.
\<close>

definition round_results :: "int option \<Rightarrow> exn + (bytes \<times> bytes)" where
  "round_results compared_cards_result =
     (if compared_cards_result = Some (- 1) then
        (case struct_pack_B 2 [Command_value PLAYRESULT, Result_value LOSE] of
           Inl e \<Rightarrow> Inl e
         | Inr r1 \<Rightarrow>
             (case struct_pack_B 2 [Command_value PLAYRESULT, Result_value WIN] of
                Inl e \<Rightarrow> Inl e | Inr r2 \<Rightarrow> Inr (r1, r2)))
      else if compared_cards_result = Some 1 then
        (case struct_pack_B 2 [Command_value PLAYRESULT, Result_value WIN] of
           Inl e \<Rightarrow> Inl e
         | Inr r1 \<Rightarrow>
             (case struct_pack_B 2 [Command_value PLAYRESULT, Result_value LOSE] of
                Inl e \<Rightarrow> Inl e | Inr r2 \<Rightarrow> Inr (r1, r2)))
      else
        (case struct_pack_B 2 [Command_value PLAYRESULT, Result_value DRAW] of
           Inl e \<Rightarrow> Inl e
         | Inr r1 \<Rightarrow>
             (case struct_pack_B 2 [Command_value PLAYRESULT, Result_value DRAW] of
                Inl e \<Rightarrow> Inl e | Inr r2 \<Rightarrow> Inr (r1, r2))))"

text \<open>
  How a run of the function, or of one round, ends: by a \<^verbatim>\<open>return\<close> or by an
  exception that nothing catches.
\<close>

datatype outcome = Returned | Raised exn

text \<open>
  One iteration of the \<^verbatim>\<open>for\<close> loop. The first component is \<open>None\<close> when the
  iteration reaches its end and the loop goes on, and the way the function ends
  otherwise.
\<close>

definition game_round :: "locals \<Rightarrow> game \<Rightarrow> outcome option \<times> locals \<times> game" where
  "game_round L game =
     (case recv_play_cards L game of (L1, g1) \<Rightarrow>
      (case unpack_play_cards L1 g1 of
         Inl e \<Rightarrow> (Some (Raised e), L1, g1)
       | Inr (L2, g2) \<Rightarrow>
           (let player_one_card = snd (player_one_data L2);
                player_two_card = snd (player_two_data L2)
            in if uint (fst (player_one_data L2)) \<noteq> Command_value PLAYCARD
               then (Some Returned, L2, kill_game g2)
               else if uint (fst (player_two_data L2)) \<noteq> Command_value PLAYCARD
               then (Some Returned, L2, kill_game g2)
               else (case round_results
                            (compare_cards (uint player_one_card) (uint player_two_card)) of
                       Inl e \<Rightarrow> (Some (Raised e), L2, g2)
                     | Inr (player_one_result, player_two_result) \<Rightarrow>
                         (None, L2, try_send_both player_one_result player_two_result g2)))))"

text \<open>The loop \<^verbatim>\<open>for i in range(1, 27)\<close>, and the \<^verbatim>\<open>return\<close> after it.\<close>

fun game_loop :: "nat list \<Rightarrow> locals \<Rightarrow> game \<Rightarrow> outcome \<times> game" where
  "game_loop [] L game = (Returned, game)"
| "game_loop (i # rounds) L game =
     (case game_round L game of
        (Some out, L', game') \<Rightarrow> (out, game')
      | (None, L', game') \<Rightarrow> game_loop rounds L' game')"

text \<open>
  \<^verbatim>\<open>handle_game_clients(player_one, player_two)\<close>. The two initial \<^verbatim>\<open>recv(2)\<close> calls
  stand outside any \<^verbatim>\<open>try\<close>: an exception of theirs leaves the function. The result
  is how the function ends and the two sockets as it leaves them.
\<close>

definition handle_game_clients ::
  "(int list \<Rightarrow> int list) \<Rightarrow> sock \<Rightarrow> sock \<Rightarrow> outcome \<times> game" where
  "handle_game_clients shuffle player_one player_two =
     (case recv player_one 2 of
        (Inl e, p1) \<Rightarrow> (Raised e, (p1, player_two))
      | (Inr player_one_data', p1) \<Rightarrow>
          (case recv player_two 2 of
             (Inl e, p2) \<Rightarrow> (Raised e, (p1, p2))
           | (Inr player_two_data', p2) \<Rightarrow>
               if player_one_data' \<noteq> [0, 0] \<or> player_two_data' \<noteq> [0, 0]
               then (Returned, kill_game (p1, p2))
               else (case deal_cards shuffle of
                       Inl e \<Rightarrow> (Raised e, (p1, p2))
                     | Inr (player_one_hand, player_two_hand) \<Rightarrow>
                         game_loop [1..<27]
                           \<lparr>player_one_play_card = None, player_two_play_card = None,
                            player_one_data = (0, 0), player_two_data = (0, 0)\<rparr>
                           (try_send_both player_one_hand player_two_hand (p1, p2)))))"

section \<open>client\<close>

text \<open>
  The client reads from an asyncio stream. The model of the stream is the bytes the
  server will deliver (\<open>pending\<close>) and the exception a read meets when it needs more
  than that (\<open>ending\<close>): \<^verbatim>\<open>IncompleteReadError\<close> when the server has closed the
  connection, \<^verbatim>\<open>ConnectionResetError\<close> or another \<^verbatim>\<open>OSError\<close> when the connection
  breaks. \<^verbatim>\<open>reader.readexactly(n)\<close> returns exactly n bytes or raises.
\<close>

datatype client_exn = ConnectionResetError | IncompleteReadError | OSError

record stream_reader =
  pending :: bytes
  ending :: client_exn

definition reader_readexactly ::
  "stream_reader \<Rightarrow> nat \<Rightarrow> client_exn + (bytes \<times> stream_reader)" where
  "reader_readexactly r n =
     (if n \<le> length (pending r)
      then Inr (take n (pending r), r\<lparr>pending := drop n (pending r)\<rparr>)
      else Inl (ending r))"

text \<open>
  The state of a client while it plays: its reader, the messages it has passed to
  \<^verbatim>\<open>writer.write\<close> (in order) and \<open>myscore\<close>.
\<close>

record client_state =
  reader :: stream_reader
  written :: "bytes list"
  myscore :: int

text \<open>
  The loop \<^verbatim>\<open>for card in card_msg[1:]\<close>: write the PlayCard message, read the two
  bytes of the result, add 1 for WIN and subtract 1 for LOSE. \<open>result ! 1\<close> is in
  range: \<open>reader_readexactly\<close> returns two bytes. An exception ends the loop.
\<close>

fun play_hand :: "bytes \<Rightarrow> client_state \<Rightarrow> client_exn option \<times> client_state" where
  "play_hand [] st = (None, st)"
| "play_hand (card' # cards) st =
     (let st1 = st\<lparr>written := written st @ [[word_of_int (Command_value PLAYCARD), card']]\<rparr>
      in case reader_readexactly (reader st1) 2 of
           Inl e \<Rightarrow> (Some e, st1)
         | Inr (result, reader') \<Rightarrow>
             play_hand cards
               (st1\<lparr>reader := reader',
                    myscore :=
                      (if uint (result ! 1) = Result_value WIN then myscore st1 + 1
                       else if uint (result ! 1) = Result_value LOSE then myscore st1 - 1
                       else myscore st1)\<rparr>))"

text \<open>
  What a run of \<^verbatim>\<open>client\<close> leaves: its return value (1 or 0), the messages written,
  and, when the game was played to its end, the final \<open>myscore\<close> and the word logged
  for it. All three exceptions the source catches make it return 0.
\<close>

record client_run =
  returned :: int
  messages :: "bytes list"
  final_score :: "int option"
  logged :: "string option"

definition client :: "client_exn + stream_reader \<Rightarrow> client_run" where
  "client connected =
     (case connected of
        Inl e \<Rightarrow> \<lparr>returned = 0, messages = [], final_score = None, logged = None\<rparr>
      | Inr rd \<Rightarrow>
          (case reader_readexactly rd 27 of
             Inl e \<Rightarrow>
               \<lparr>returned = 0, messages = [[0, 0]], final_score = None, logged = None\<rparr>
           | Inr (card_msg, rd') \<Rightarrow>
               (case play_hand (drop 1 card_msg)
                       \<lparr>reader = rd', written = [[0, 0]], myscore = 0\<rparr> of
                  (Some e, st) \<Rightarrow>
                    \<lparr>returned = 0, messages = written st, final_score = None,
                     logged = None\<rparr>
                | (None, st) \<Rightarrow>
                    \<lparr>returned = 1, messages = written st,
                     final_score = Some (myscore st),
                     logged = Some (if myscore st > 0 then ''won''
                                    else if myscore st < 0 then ''lost''
                                    else ''drew'')\<rparr>)))"

section \<open>Properties of compare_cards\<close>

text \<open>
  Claim C5. For all integers a and b: compare_cards a b is -1 exactly when
  compare_cards b a is 1 (and the other way round), it is 0 exactly when
  compare_cards b a is 0, compare_cards a a is 0, and compare_cards a b is 0 exactly
  when a mod 13 = b mod 13.
\<close>

theorem compare_cards_inverse_and_rank:
  "(compare_cards a b = Some (- 1) \<longleftrightarrow> compare_cards b a = Some 1) \<and>
   (compare_cards a b = Some 1 \<longleftrightarrow> compare_cards b a = Some (- 1)) \<and>
   (compare_cards a b = Some 0 \<longleftrightarrow> compare_cards b a = Some 0) \<and>
   compare_cards a a = Some 0 \<and>
   (compare_cards a b = Some 0 \<longleftrightarrow> a mod 13 = b mod 13)"
  by (auto simp: compare_cards_def Let_def)

text \<open>
  Claim C10. compare_cards returns -1, 0 or 1 on every pair of integers; the final
  \<^verbatim>\<open>return None\<close> is never reached.
\<close>

theorem compare_cards_total:
  "compare_cards a b \<noteq> None \<and>
   (compare_cards a b = Some (- 1) \<or> compare_cards a b = Some 0 \<or> compare_cards a b = Some 1)"
  by (auto simp: compare_cards_def Let_def)

section \<open>Sockets: what the calls leave unchanged\<close>

lemma recv_frame:
  "recv s n = (r, s') \<Longrightarrow> sent s' = sent s \<and> closes s' = closes s \<and> send_ok s' = send_ok s"
  by (auto simp: recv_def split: if_splits list.splits recv_event.splits)

lemma recv_returns_open: "recv s n = (Inr d, s') \<Longrightarrow> closes s = 0"
  by (auto simp: recv_def split: if_splits)

lemma closes_close: "closes (close s) = Suc (closes s)"
  by (simp add: close_def)

lemma sent_close: "sent (close s) = sent s"
  by (simp add: close_def)

lemma recv_eof: "closes s = 0 \<Longrightarrow> inbox s = [] \<Longrightarrow> recv s n = (Inr [], s)"
  by (simp add: recv_def)

lemma recv_chunk2:
  "closes s = 0 \<Longrightarrow> inbox s = Data a [b] # evs \<Longrightarrow> recv s 2 = (Inr [a, b], s\<lparr>inbox := evs\<rparr>)"
  by (simp add: recv_def)

lemma can_send_all:
  "closes s = 0 \<Longrightarrow> list_all (\<lambda>ok. ok) (send_ok s) \<Longrightarrow> can_send s"
  by (cases "send_ok s") (simp_all add: can_send_def)

lemma list_all_tl: "list_all P xs \<Longrightarrow> list_all P (tl xs)"
  by (cases xs) simp_all

lemma sendall_can_send:
  "can_send s \<Longrightarrow>
   sendall s m = (Inr (), s\<lparr>send_ok := tl (send_ok s), sent := sent s @ [(m, True)]\<rparr>)"
  by (auto simp: can_send_def sendall_def split: list.splits)

lemma recv_can_send: "recv s n = (r, s') \<Longrightarrow> can_send s' = can_send s"
  using recv_frame[of s n r s'] by (simp add: can_send_def)

section \<open>readexactly at the end of the stream\<close>

text \<open>
  Once the peer has closed, every \<^verbatim>\<open>recv\<close> returns the empty byte string and the
  loop of \<^verbatim>\<open>readexactly\<close> makes no progress: with fewer than \<open>n\<close> bytes received
  it never returns.
\<close>

lemma readexactly_loop_returns_not_eof:
  assumes ret: "readexactly_loop s n acc = Some y"
  shows "\<not> (closes s = 0 \<and> inbox s = [] \<and> length acc < n)"
proof (rule readexactly_loop.raw_induct
    [where P = "\<lambda>s n acc y. \<not> (closes s = 0 \<and> inbox s = [] \<and> length acc < n)", OF _ ret],
    goal_cases)
  case (1 loop s n acc y)
  show ?case
  proof
    assume stuck: "closes s = 0 \<and> inbox s = [] \<and> length acc < n"
    with 1(2) have "loop s n acc = Some y"
      by (simp add: recv_eof)
    with 1(1) stuck show False by blast
  qed
qed

lemma readexactly_loop_eof_never_returns:
  assumes "closes s = 0" "inbox s = []" "length acc < n"
  shows "readexactly_loop s n acc = None"
proof (cases "readexactly_loop s n acc")
  case None
  then show ?thesis .
next
  case (Some y)
  from readexactly_loop_returns_not_eof[OF this] assms show ?thesis by simp
qed

text \<open>
  Claim C2. The claim asks that \<^verbatim>\<open>readexactly\<close> end with a ConnectionClosed failure
  when the stream ends before \<open>n\<close> bytes have arrived. On a connection that delivers
  one byte and is then closed by the peer, the call \<^verbatim>\<open>readexactly(sock, 2)\<close> of the
  source never returns and raises nothing: the model's value is \<open>None\<close>.
\<close>

theorem readexactly_spins_at_eof:
  "readexactly (connection [Data 7 []] []) 2 = None"
  by (simp add: readexactly_def recv_def connection_def readexactly_loop_eof_never_returns)

section \<open>deal_cards: the two hands\<close>

lemma struct_pack_B_ok:
  "length args = n \<Longrightarrow> set args \<subseteq> {0..255} \<Longrightarrow> struct_pack_B n args = Inr (map word_of_int args)"
  by (auto simp: struct_pack_B_def list_all_iff)

lemma uint_byte_of_int: "0 \<le> v \<Longrightarrow> v \<le> 255 \<Longrightarrow> uint (word_of_int v :: byte) = v"
  by (simp add: uint_word_of_int take_bit_int_eq_self)

lemma map_uint_bytes: "set vs \<subseteq> {0..255} \<Longrightarrow> map uint (map word_of_int vs :: bytes) = vs"
  by (induction vs) (auto simp: uint_byte_of_int)

lemma shuffled_deck:
  assumes "mset deck = mset [0..51::int]"
  shows "length deck = 52" "set deck = {0..51}" "distinct deck"
proof -
  from assms show "length deck = 52"
    using mset_eq_length by fastforce
  from assms show "set deck = {0..51}"
    using mset_eq_setD by fastforce
  from assms show "distinct deck"
    using mset_eq_imp_distinct_iff by (metis distinct_upto)
qed

lemma deal_cards_run:
  assumes deck: "mset (shuffle [0..51]) = mset [0..51]"
  shows "deal_cards shuffle =
           Inr (1 # map word_of_int (take 26 (shuffle [0..51])),
                1 # map word_of_int (drop 26 (shuffle [0..51])))"
proof -
  define card_deck where "card_deck = shuffle [0..51]"
  note d = shuffled_deck[OF deck, folded card_deck_def]
  have sub1: "set (take 26 card_deck) \<subseteq> {0..255}"
    using set_take_subset[of 26 card_deck] d(2) by auto
  have sub2: "set (drop 26 card_deck) \<subseteq> {0..255}"
    using set_drop_subset[of 26 card_deck] d(2) by auto
  have p1: "struct_pack_B 27 (1 # take 26 card_deck) = Inr (1 # map word_of_int (take 26 card_deck))"
    using struct_pack_B_ok[of "1 # take 26 card_deck" 27] sub1 d(1) by simp
  have p2: "struct_pack_B 27 (1 # drop 26 card_deck) = Inr (1 # map word_of_int (drop 26 card_deck))"
    using struct_pack_B_ok[of "1 # drop 26 card_deck" 27] sub2 d(1) by simp
  show ?thesis
    by (simp add: deal_cards_def Let_def p1 p2 card_deck_def[symmetric])
qed

text \<open>
  Claim C6. Whenever \<^verbatim>\<open>random.shuffle\<close> leaves a permutation of the 52 cards,
  \<^verbatim>\<open>deal_cards\<close> returns two messages of 27 bytes: the GAMESTART tag 1 followed by
  26 card bytes, which are the first 26 cards of the shuffled deck for player one and
  the last 26 for player two, in the deck's order. The two hands are disjoint and
  together they are exactly the cards 0..51, each once.
\<close>

theorem deal_cards_hands:
  assumes deck: "mset (shuffle [0..51]) = mset [0..51]"
  shows "\<exists>h1 h2. deal_cards shuffle = Inr (1 # h1, 1 # h2) \<and>
           length h1 = 26 \<and> length h2 = 26 \<and>
           map uint h1 = take 26 (shuffle [0..51]) \<and>
           map uint h2 = drop 26 (shuffle [0..51]) \<and>
           set (map uint h1) \<inter> set (map uint h2) = {} \<and>
           set (map uint h1) \<union> set (map uint h2) = {0..51} \<and>
           distinct (map uint h1 @ map uint h2)"
proof -
  define card_deck where "card_deck = shuffle [0..51]"
  note d = shuffled_deck[OF deck, folded card_deck_def]
  have sub1: "set (take 26 card_deck) \<subseteq> {0..255}"
    using set_take_subset[of 26 card_deck] d(2) by auto
  have sub2: "set (drop 26 card_deck) \<subseteq> {0..255}"
    using set_drop_subset[of 26 card_deck] d(2) by auto
  have dis: "distinct (take 26 card_deck @ drop 26 card_deck)"
    using d(3) by simp
  have un: "set (take 26 card_deck) \<union> set (drop 26 card_deck) = {0..51}"
    using d(2) set_append[of "take 26 card_deck" "drop 26 card_deck"] by simp
  from dis have int: "set (take 26 card_deck) \<inter> set (drop 26 card_deck) = {}"
    by (simp only: distinct_append)
  define h1 :: bytes where "h1 = map word_of_int (take 26 card_deck)"
  define h2 :: bytes where "h2 = map word_of_int (drop 26 card_deck)"
  have u1: "map uint h1 = take 26 card_deck"
    unfolding h1_def by (rule map_uint_bytes[OF sub1])
  have u2: "map uint h2 = drop 26 card_deck"
    unfolding h2_def by (rule map_uint_bytes[OF sub2])
  have l1: "length h1 = 26" and l2: "length h2 = 26"
    using d(1) by (simp_all add: h1_def h2_def)
  show ?thesis
    unfolding card_deck_def[symmetric]
  proof (intro exI conjI)
    show "deal_cards shuffle = Inr (1 # h1, 1 # h2)"
      using deal_cards_run[of shuffle, OF deck] by (simp add: h1_def h2_def card_deck_def)
    show "length h1 = 26" by (rule l1)
    show "length h2 = 26" by (rule l2)
    show "map uint h1 = take 26 card_deck" by (rule u1)
    show "map uint h2 = drop 26 card_deck" by (rule u2)
    show "set (map uint h1) \<inter> set (map uint h2) = {}"
      unfolding u1 u2 by (rule int)
    show "set (map uint h1) \<union> set (map uint h2) = {0..51}"
      unfolding u1 u2 by (rule un)
    show "distinct (map uint h1 @ map uint h2)"
      unfolding u1 u2 by (rule dis)
  qed
qed

theorem deal_cards_hands_witness:
  "mset (rev [0..51]) = mset [0..51::int] \<and>
   (\<exists>h1 h2. deal_cards rev = Inr (1 # h1, 1 # h2) \<and>
           length h1 = 26 \<and> length h2 = 26 \<and>
           map uint h1 = take 26 (rev [0..51]) \<and>
           map uint h2 = drop 26 (rev [0..51]) \<and>
           set (map uint h1) \<inter> set (map uint h2) = {} \<and>
           set (map uint h1) \<union> set (map uint h2) = {0..51} \<and>
           distinct (map uint h1 @ map uint h2))"
proof -
  have h: "mset (rev [0..51]) = mset [0..51::int]" by simp
  from deal_cards_hands[of rev, OF h] h show ?thesis by blast
qed

section \<open>One round\<close>

lemma round_results_cases:
  "round_results (compare_cards a b) =
     Inr (if a mod 13 < b mod 13 then ([3, 2], [3, 0])
          else if b mod 13 < a mod 13 then ([3, 0], [3, 2])
          else ([3, 1], [3, 1]))"
  by (auto simp: round_results_def compare_cards_def Let_def struct_pack_B_def)

lemma recv_play_cards_ok:
  assumes "recv (fst game) 2 = (Inr d1, p1)" "recv (snd game) 2 = (Inr d2, p2)"
  shows "recv_play_cards L game =
           (L\<lparr>player_one_play_card := Some d1, player_two_play_card := Some d2\<rparr>, (p1, p2))"
  using assms by (simp add: recv_play_cards_def)

lemma unpack_play_cards_ok:
  assumes "player_one_play_card L = Some [t1, c1]" "player_two_play_card L = Some [t2, c2]"
  shows "unpack_play_cards L game =
           Inr (L\<lparr>player_one_data := (t1, c1), player_two_data := (t2, c2)\<rparr>, game)"
  using assms by (simp add: unpack_play_cards_def struct_unpack_2B_def)

lemma try_send_both_ok:
  assumes "can_send (fst game)" "can_send (snd game)"
  shows "try_send_both m1 m2 game =
           ((fst game)\<lparr>send_ok := tl (send_ok (fst game)), sent := sent (fst game) @ [(m1, True)]\<rparr>,
            (snd game)\<lparr>send_ok := tl (send_ok (snd game)), sent := sent (snd game) @ [(m2, True)]\<rparr>)"
  using assms by (simp add: try_send_both_def sendall_can_send)

lemma uint_byte_0: "uint (w::byte) = 0 \<longleftrightarrow> w = 0"
  by (simp add: uint_0_iff)

lemma uint_byte_2: "uint (w::byte) = 2 \<longleftrightarrow> w = 2"
proof -
  have "uint (2::byte) = 2" by simp
  then show ?thesis by (metis word_uint_eq_iff)
qed

lemma game_round_ok:
  assumes r1: "recv (fst game) 2 = (Inr [2, c1], p1)"
      and r2: "recv (snd game) 2 = (Inr [2, c2], p2)"
      and s1: "can_send (fst game)" and s2: "can_send (snd game)"
  shows "game_round L game =
           (None,
            L\<lparr>player_one_play_card := Some [2, c1], player_two_play_card := Some [2, c2],
              player_one_data := (2, c1), player_two_data := (2, c2)\<rparr>,
            (p1\<lparr>send_ok := tl (send_ok p1),
                sent := sent p1 @ [(fst (if uint c1 mod 13 < uint c2 mod 13 then ([3, 2], [3, 0])
          else if uint c2 mod 13 < uint c1 mod 13 then ([3, 0], [3, 2])
          else ([3, 1], [3, 1])), True)]\<rparr>,
             p2\<lparr>send_ok := tl (send_ok p2),
                sent := sent p2 @ [(snd (if uint c1 mod 13 < uint c2 mod 13 then ([3, 2], [3, 0])
          else if uint c2 mod 13 < uint c1 mod 13 then ([3, 0], [3, 2])
          else ([3, 1], [3, 1])), True)]\<rparr>))"
proof -
  have c1: "can_send p1" using recv_can_send[OF r1] s1 by simp
  have c2: "can_send p2" using recv_can_send[OF r2] s2 by simp
  show ?thesis
    unfolding game_round_def
    by (simp add: recv_play_cards_ok[OF r1 r2] unpack_play_cards_ok round_results_cases
        try_send_both_ok c1 c2 Let_def)
qed

lemma game_round_bad_tag:
  assumes r1: "recv (fst game) 2 = (Inr [b1, c1], p1)"
      and r2: "recv (snd game) 2 = (Inr [b2, c2], p2)"
      and bad: "b1 \<noteq> 2 \<or> b2 \<noteq> 2"
  shows "\<exists>L'. game_round L game = (Some Returned, L', (close p1, close p2))"
  using bad
  by (auto simp: game_round_def recv_play_cards_ok[OF r1 r2] unpack_play_cards_ok Let_def
      kill_game_def uint_byte_2)

text \<open>
  Claim C7 (amended). In a round in which both \<^verbatim>\<open>recv\<close> calls return a two-byte
  message with the PLAYCARD tag and both \<^verbatim>\<open>sendall\<close> calls succeed, the round sends
  exactly one PLAYRESULT message (tag 3) to each player, and the loop goes on. The two
  result bytes follow from the one comparison of the ranks: LOSE (2) for player one
  and WIN (0) for player two when player one's rank is lower, WIN and LOSE when it is
  higher, DRAW (1) for both when the ranks are equal. WIN for both and LOSE for both
  never occur.
\<close>

theorem round_results_complementary:
  assumes r1: "recv (fst game) 2 = (Inr [2, c1], p1)"
      and r2: "recv (snd game) 2 = (Inr [2, c2], p2)"
      and s1: "can_send (fst game)" and s2: "can_send (snd game)"
  shows "\<exists>L' q1 q2 x y.
           game_round L game = (None, L', (q1, q2)) \<and>
           sent q1 = sent (fst game) @ [([3, x], True)] \<and>
           sent q2 = sent (snd game) @ [([3, y], True)] \<and>
           (x, y) = (if uint c1 mod 13 < uint c2 mod 13 then (2, 0)
                     else if uint c2 mod 13 < uint c1 mod 13 then (0, 2)
                     else (1, 1)) \<and>
           (x, y) \<noteq> (0, 0) \<and> (x, y) \<noteq> (2, 2)"
  using game_round_ok[OF r1 r2 s1 s2, of L] recv_frame[OF r1] recv_frame[OF r2]
  by auto

theorem round_results_complementary_witness:
  "recv (connection [Data 2 [12]] []) 2 = (Inr [2, 12], connection [] []) \<and>
   recv (connection [Data 2 [0]] []) 2 = (Inr [2, 0], connection [] []) \<and>
   can_send (connection [Data 2 [12]] []) \<and> can_send (connection [Data 2 [0]] []) \<and>
   (\<exists>L' q1 q2 x y.
      game_round
        \<lparr>player_one_play_card = None, player_two_play_card = None,
         player_one_data = (0, 0), player_two_data = (0, 0)\<rparr>
        (connection [Data 2 [12]] [], connection [Data 2 [0]] []) = (None, L', (q1, q2)) \<and>
      sent q1 = [([3, x], True)] \<and> sent q2 = [([3, y], True)] \<and> (x, y) = (0, 2))"
proof -
  have r1: "recv (fst (connection [Data 2 [12]] [], connection [Data 2 [0]] [])) 2 =
              (Inr [2, 12], connection [] [])"
    by (simp add: recv_def connection_def)
  have r2: "recv (snd (connection [Data 2 [12]] [], connection [Data 2 [0]] [])) 2 =
              (Inr [2, 0], connection [] [])"
    by (simp add: recv_def connection_def)
  have s1: "can_send (fst (connection [Data 2 [12]] [], connection [Data 2 [0]] []))"
    by (simp add: can_send_def connection_def)
  have s2: "can_send (snd (connection [Data 2 [12]] [], connection [Data 2 [0]] []))"
    by (simp add: can_send_def connection_def)
  from round_results_complementary[OF r1 r2 s1 s2] r1 r2 s1 s2 show ?thesis
    by (simp add: connection_def)
qed

text \<open>
  The claim as stated, without the condition on the \<^verbatim>\<open>sendall\<close> calls, fails: here
  both PlayCard messages are received and validated, the \<^verbatim>\<open>sendall\<close> to player one
  raises, and no PLAYRESULT message is sent to player two.
\<close>

theorem round_result_not_sent_counterexample:
  "recv (connection [Data 2 [12]] [False]) 2 = (Inr [2, 12], connection [] [False]) \<and>
   recv (connection [Data 2 [0]] []) 2 = (Inr [2, 0], connection [] []) \<and>
   game_round
     \<lparr>player_one_play_card = None, player_two_play_card = None,
      player_one_data = (0, 0), player_two_data = (0, 0)\<rparr>
     (connection [Data 2 [12]] [False], connection [Data 2 [0]] []) =
     (None,
      \<lparr>player_one_play_card = Some [2, 12], player_two_play_card = Some [2, 0],
       player_one_data = (2, 12), player_two_data = (2, 0)\<rparr>,
      (\<lparr>inbox = [], send_ok = [], sent = [([3, 0], False)], closes = 1\<rparr>,
       \<lparr>inbox = [], send_ok = [], sent = [], closes = 1\<rparr>))"
  by (simp add: game_round_def recv_play_cards_def unpack_play_cards_def struct_unpack_2B_def
      round_results_cases try_send_both_def sendall_def recv_def connection_def kill_game_def
      close_def Let_def)

section \<open>The initial WantGame check\<close>

lemma wantgame_violation_run:
  assumes r1: "recv player_one 2 = (Inr d1, p1)"
      and r2: "recv player_two 2 = (Inr d2, p2)"
      and bad: "d1 \<noteq> [0, 0] \<or> d2 \<noteq> [0, 0]"
  shows "handle_game_clients shuffle player_one player_two = (Returned, (close p1, close p2))"
    and "closes (close p1) = 1" and "closes (close p2) = 1"
    and "sent (close p1) = sent player_one" and "sent (close p2) = sent player_two"
proof -
  show "handle_game_clients shuffle player_one player_two = (Returned, (close p1, close p2))"
    using r1 r2 bad by (auto simp: handle_game_clients_def kill_game_def)
  have "closes p1 = 0" "closes p2 = 0"
    using recv_returns_open[OF r1] recv_returns_open[OF r2] recv_frame[OF r1] recv_frame[OF r2]
    by simp_all
  then show "closes (close p1) = 1" and "closes (close p2) = 1"
    by (simp_all add: closes_close)
  show "sent (close p1) = sent player_one" and "sent (close p2) = sent player_two"
    using recv_frame[OF r1] recv_frame[OF r2] by (simp_all add: sent_close)
qed




section \<open>The whole session\<close>

lemma game_loop_full_rounds:
  assumes "length cs1 = length rounds" "length cs2 = length rounds"
      and "inbox p1 = plays cs1 @ t1" "inbox p2 = plays cs2 @ t2"
      and "closes p1 = 0" "closes p2 = 0"
      and "list_all (\<lambda>ok. ok) (send_ok p1)" "list_all (\<lambda>ok. ok) (send_ok p2)"
  shows "\<exists>L' q1 q2. game_loop (rounds @ rest) L (p1, p2) = game_loop rest L' (q1, q2) \<and>
           inbox q1 = t1 \<and> inbox q2 = t2 \<and> closes q1 = 0 \<and> closes q2 = 0"
  using assms
proof (induction rounds arbitrary: cs1 cs2 p1 p2 L)
  case Nil
  then show ?case by (auto simp: plays_def)
next
  case (Cons i rounds)
  from Cons.prems(1) obtain c1 cs1' where cs1: "cs1 = c1 # cs1'" "length cs1' = length rounds"
    by (cases cs1) auto
  from Cons.prems(2) obtain c2 cs2' where cs2: "cs2 = c2 # cs2'" "length cs2' = length rounds"
    by (cases cs2) auto
  define n1 where "n1 = p1\<lparr>inbox := plays cs1' @ t1\<rparr>"
  define n2 where "n2 = p2\<lparr>inbox := plays cs2' @ t2\<rparr>"
  have r1: "recv (fst (p1, p2)) 2 = (Inr [2, c1], n1)"
    using Cons.prems(3,5) by (simp add: recv_chunk2 cs1 plays_def n1_def)
  have r2: "recv (snd (p1, p2)) 2 = (Inr [2, c2], n2)"
    using Cons.prems(4,6) by (simp add: recv_chunk2 cs2 plays_def n2_def)
  have s1: "can_send (fst (p1, p2))" using Cons.prems(5,7) by (simp add: can_send_all)
  have s2: "can_send (snd (p1, p2))" using Cons.prems(6,8) by (simp add: can_send_all)
  from game_round_ok[OF r1 r2 s1 s2, of L]
  obtain L1 m1 m2 where
    rd: "game_round L (p1, p2) =
           (None, L1, (n1\<lparr>send_ok := tl (send_ok n1), sent := sent n1 @ [(m1, True)]\<rparr>,
                       n2\<lparr>send_ok := tl (send_ok n2), sent := sent n2 @ [(m2, True)]\<rparr>))"
    by blast
  define g1 where "g1 = n1\<lparr>send_ok := tl (send_ok n1), sent := sent n1 @ [(m1, True)]\<rparr>"
  define g2 where "g2 = n2\<lparr>send_ok := tl (send_ok n2), sent := sent n2 @ [(m2, True)]\<rparr>"
  have step: "game_loop ((i # rounds) @ rest) L (p1, p2) = game_loop (rounds @ rest) L1 (g1, g2)"
    using rd by (simp add: g1_def g2_def)
  have "\<exists>L' q1 q2. game_loop (rounds @ rest) L1 (g1, g2) = game_loop rest L' (q1, q2) \<and>
           inbox q1 = t1 \<and> inbox q2 = t2 \<and> closes q1 = 0 \<and> closes q2 = 0"
  proof (rule Cons.IH)
    show "length cs1' = length rounds" by (rule cs1(2))
    show "length cs2' = length rounds" by (rule cs2(2))
    show "inbox g1 = plays cs1' @ t1" by (simp add: g1_def n1_def)
    show "inbox g2 = plays cs2' @ t2" by (simp add: g2_def n2_def)
    show "closes g1 = 0" using Cons.prems(5) by (simp add: g1_def n1_def)
    show "closes g2 = 0" using Cons.prems(6) by (simp add: g2_def n2_def)
    show "list_all (\<lambda>ok. ok) (send_ok g1)"
      using Cons.prems(7) by (simp add: g1_def n1_def list_all_tl)
    show "list_all (\<lambda>ok. ok) (send_ok g2)"
      using Cons.prems(8) by (simp add: g2_def n2_def list_all_tl)
  qed
  with step show ?case by simp
qed

lemma session_rounds:
  assumes deck: "mset (shuffle [0..51]) = mset [0..51]"
      and ok1: "list_all (\<lambda>ok. ok) oks1" and ok2: "list_all (\<lambda>ok. ok) oks2"
      and len: "length cs1 = k" "length cs2 = k" "k \<le> 26"
  shows "\<exists>L' q1 q2.
           handle_game_clients shuffle
             (connection (Data 0 [0] # plays cs1 @ t1) oks1)
             (connection (Data 0 [0] # plays cs2 @ t2) oks2) =
           game_loop [1 + k..<27] L' (q1, q2) \<and>
           inbox q1 = t1 \<and> inbox q2 = t2 \<and> closes q1 = 0 \<and> closes q2 = 0"
proof -
  define a1 where "a1 = connection (plays cs1 @ t1) oks1"
  define a2 where "a2 = connection (plays cs2 @ t2) oks2"
  have r1: "recv (connection (Data 0 [0] # plays cs1 @ t1) oks1) 2 = (Inr [0, 0], a1)"
    by (simp add: recv_def connection_def a1_def)
  have r2: "recv (connection (Data 0 [0] # plays cs2 @ t2) oks2) 2 = (Inr [0, 0], a2)"
    by (simp add: recv_def connection_def a2_def)
  obtain h1 h2 where deal: "deal_cards shuffle = Inr (h1, h2)"
    using deal_cards_run[of shuffle, OF deck] by blast
  have s1: "can_send (fst (a1, a2))" using ok1 by (simp add: can_send_all a1_def connection_def)
  have s2: "can_send (snd (a1, a2))" using ok2 by (simp add: can_send_all a2_def connection_def)
  define g1 where "g1 = a1\<lparr>send_ok := tl (send_ok a1), sent := sent a1 @ [(h1, True)]\<rparr>"
  define g2 where "g2 = a2\<lparr>send_ok := tl (send_ok a2), sent := sent a2 @ [(h2, True)]\<rparr>"
  have snd_hands: "try_send_both h1 h2 (a1, a2) = (g1, g2)"
    using try_send_both_ok[OF s1 s2] by (simp add: g1_def g2_def)
  define L0 where "L0 = \<lparr>player_one_play_card = None, player_two_play_card = None,
                            player_one_data = (0, 0), player_two_data = (0, 0)\<rparr>"
  have run: "handle_game_clients shuffle
             (connection (Data 0 [0] # plays cs1 @ t1) oks1)
             (connection (Data 0 [0] # plays cs2 @ t2) oks2) = game_loop [1..<27] L0 (g1, g2)"
    by (simp add: handle_game_clients_def r1 r2 deal snd_hands L0_def)
  have split: "[1..<27] = [1..<1 + k] @ [1 + k..<27]"
    using len(3) upt_add_eq_append[of 1 "1 + k" "26 - k"] by simp
  have "\<exists>L' q1 q2. game_loop ([1..<1 + k] @ [1 + k..<27]) L0 (g1, g2) =
            game_loop [1 + k..<27] L' (q1, q2) \<and>
           inbox q1 = t1 \<and> inbox q2 = t2 \<and> closes q1 = 0 \<and> closes q2 = 0"
  proof (rule game_loop_full_rounds)
    show "length cs1 = length [1..<1 + k]" using len by simp
    show "length cs2 = length [1..<1 + k]" using len by simp
    show "inbox g1 = plays cs1 @ t1" by (simp add: g1_def a1_def connection_def)
    show "inbox g2 = plays cs2 @ t2" by (simp add: g2_def a2_def connection_def)
    show "closes g1 = 0" by (simp add: g1_def a1_def connection_def)
    show "closes g2 = 0" by (simp add: g2_def a2_def connection_def)
    show "list_all (\<lambda>ok. ok) (send_ok g1)"
      using ok1 by (simp add: g1_def a1_def connection_def list_all_tl)
    show "list_all (\<lambda>ok. ok) (send_ok g2)"
      using ok2 by (simp add: g2_def a2_def connection_def list_all_tl)
  qed
  with run split show ?thesis by simp
qed

lemma session_completes_unclosed:
  assumes deck: "mset (shuffle [0..51]) = mset [0..51]"
      and ok1: "list_all (\<lambda>ok. ok) oks1" and ok2: "list_all (\<lambda>ok. ok) oks2"
      and len: "length cs1 = 26" "length cs2 = 26"
  shows "\<exists>q1 q2.
           handle_game_clients shuffle
             (connection (Data 0 [0] # plays cs1 @ t1) oks1)
             (connection (Data 0 [0] # plays cs2 @ t2) oks2) = (Returned, (q1, q2)) \<and>
           closes q1 = 0 \<and> closes q2 = 0"
  using session_rounds[of shuffle, OF deck ok1 ok2 len, of t1 t2] by auto

lemma session_bad_tag_closes_once:
  assumes deck: "mset (shuffle [0..51]) = mset [0..51]"
      and ok1: "list_all (\<lambda>ok. ok) oks1" and ok2: "list_all (\<lambda>ok. ok) oks2"
      and len: "length cs1 = k" "length cs2 = k" "k < 26"
      and bad: "b1 \<noteq> 2 \<or> b2 \<noteq> 2"
  shows "\<exists>q1 q2.
           handle_game_clients shuffle
             (connection (Data 0 [0] # plays cs1 @ Data b1 [c1] # t1) oks1)
             (connection (Data 0 [0] # plays cs2 @ Data b2 [c2] # t2) oks2) =
             (Returned, (q1, q2)) \<and>
           closes q1 = 1 \<and> closes q2 = 1"
proof -
  from len(3) have k26: "k \<le> 26" by simp
  from session_rounds[of shuffle, OF deck ok1 ok2 len(1,2) k26, of "Data b1 [c1] # t1" "Data b2 [c2] # t2"]
  obtain L' q1 q2 where
    run: "handle_game_clients shuffle
             (connection (Data 0 [0] # plays cs1 @ Data b1 [c1] # t1) oks1)
             (connection (Data 0 [0] # plays cs2 @ Data b2 [c2] # t2) oks2) =
           game_loop [1 + k..<27] L' (q1, q2)"
    and q: "inbox q1 = Data b1 [c1] # t1" "inbox q2 = Data b2 [c2] # t2"
           "closes q1 = 0" "closes q2 = 0"
    by blast
  have r1: "recv (fst (q1, q2)) 2 = (Inr [b1, c1], q1\<lparr>inbox := t1\<rparr>)"
    using q by (simp add: recv_chunk2)
  have r2: "recv (snd (q1, q2)) 2 = (Inr [b2, c2], q2\<lparr>inbox := t2\<rparr>)"
    using q by (simp add: recv_chunk2)
  from game_round_bad_tag[OF r1 r2 bad, of L'] obtain L2 where
    rd: "game_round L' (q1, q2) = (Some Returned, L2, (close (q1\<lparr>inbox := t1\<rparr>), close (q2\<lparr>inbox := t2\<rparr>)))"
    by blast
  have "[1 + k..<27] = (1 + k) # [2 + k..<27]"
    using len(3) by (simp add: upt_conv_Cons)
  with run rd have "handle_game_clients shuffle
             (connection (Data 0 [0] # plays cs1 @ Data b1 [c1] # t1) oks1)
             (connection (Data 0 [0] # plays cs2 @ Data b2 [c2] # t2) oks2) =
           (Returned, (close (q1\<lparr>inbox := t1\<rparr>), close (q2\<lparr>inbox := t2\<rparr>)))"
    by simp
  with q show ?thesis by (simp add: close_def)
qed

text \<open>
  Claim C1 (amended). A session that ends at one of its two protocol checks with
  nothing having failed before closes each connection exactly once and returns: that
  is so when both initial reads return and one is not the two bytes 0, 0, and when,
  after k < 26 rounds played in full, both players send a two-byte message and one of
  the two tags is not PLAYCARD. A session whose 26 rounds are all played in full
  returns with neither connection closed: \<^verbatim>\<open>handle_game_clients\<close> calls
  \<^verbatim>\<open>kill_game\<close> only on its failure paths. Rounds are played in full when every
  PlayCard message arrives whole and every \<^verbatim>\<open>sendall\<close> succeeds; what the session
  does after a failed \<^verbatim>\<open>recv\<close>, a short round message or a failed \<^verbatim>\<open>sendall\<close> is
  not part of this statement.
\<close>

theorem session_close_counts:
  assumes deck: "mset (shuffle [0..51]) = mset [0..51]"
      and ok1: "list_all (\<lambda>ok. ok) oks1" and ok2: "list_all (\<lambda>ok. ok) oks2"
  shows
    "(recv player_one 2 = (Inr d1, p1) \<and> recv player_two 2 = (Inr d2, p2) \<and>
        (d1 \<noteq> [0, 0] \<or> d2 \<noteq> [0, 0]) \<longrightarrow>
      (\<exists>q1 q2. handle_game_clients shuffle player_one player_two = (Returned, (q1, q2)) \<and>
         closes q1 = 1 \<and> closes q2 = 1)) \<and>
     (length cs1 = k \<and> length cs2 = k \<and> k < 26 \<and> (b1 \<noteq> 2 \<or> b2 \<noteq> 2) \<longrightarrow>
      (\<exists>q1 q2.
         handle_game_clients shuffle
           (connection (Data 0 [0] # plays cs1 @ Data b1 [c1] # t1) oks1)
           (connection (Data 0 [0] # plays cs2 @ Data b2 [c2] # t2) oks2) =
           (Returned, (q1, q2)) \<and>
         closes q1 = 1 \<and> closes q2 = 1)) \<and>
     (length ds1 = 26 \<and> length ds2 = 26 \<longrightarrow>
      (\<exists>q1 q2.
         handle_game_clients shuffle
           (connection (Data 0 [0] # plays ds1 @ u1) oks1)
           (connection (Data 0 [0] # plays ds2 @ u2) oks2) = (Returned, (q1, q2)) \<and>
         closes q1 = 0 \<and> closes q2 = 0))"
proof (intro conjI impI)
  assume "recv player_one 2 = (Inr d1, p1) \<and> recv player_two 2 = (Inr d2, p2) \<and>
        (d1 \<noteq> [0, 0] \<or> d2 \<noteq> [0, 0])"
  then have r1: "recv player_one 2 = (Inr d1, p1)" and r2: "recv player_two 2 = (Inr d2, p2)"
    and bad: "d1 \<noteq> [0, 0] \<or> d2 \<noteq> [0, 0]" by simp_all
  from wantgame_violation_run(1-3)[OF r1 r2 bad]
  show "\<exists>q1 q2. handle_game_clients shuffle player_one player_two = (Returned, (q1, q2)) \<and>
         closes q1 = 1 \<and> closes q2 = 1"
    by blast
next
  assume "length cs1 = k \<and> length cs2 = k \<and> k < 26 \<and> (b1 \<noteq> 2 \<or> b2 \<noteq> 2)"
  then have h: "length cs1 = k" "length cs2 = k" "k < 26" "b1 \<noteq> 2 \<or> b2 \<noteq> 2" by simp_all
  show "\<exists>q1 q2.
         handle_game_clients shuffle
           (connection (Data 0 [0] # plays cs1 @ Data b1 [c1] # t1) oks1)
           (connection (Data 0 [0] # plays cs2 @ Data b2 [c2] # t2) oks2) =
           (Returned, (q1, q2)) \<and>
         closes q1 = 1 \<and> closes q2 = 1"
    by (rule session_bad_tag_closes_once[of shuffle, OF deck ok1 ok2 h])
next
  assume "length ds1 = 26 \<and> length ds2 = 26"
  then have h: "length ds1 = 26" "length ds2 = 26" by simp_all
  show "\<exists>q1 q2.
         handle_game_clients shuffle
           (connection (Data 0 [0] # plays ds1 @ u1) oks1)
           (connection (Data 0 [0] # plays ds2 @ u2) oks2) = (Returned, (q1, q2)) \<and>
         closes q1 = 0 \<and> closes q2 = 0"
    by (rule session_completes_unclosed[of shuffle, OF deck ok1 ok2 h])
qed

theorem session_close_counts_witness:
  "(\<exists>q1 q2. handle_game_clients (\<lambda>deck. deck)
       (connection [Data 2 [5]] []) (connection [Data 0 [0]] []) = (Returned, (q1, q2)) \<and>
       closes q1 = 1 \<and> closes q2 = 1) \<and>
   (\<exists>q1 q2. handle_game_clients (\<lambda>deck. deck)
       (connection (Data 0 [0] # plays [5] @ Data 0 [0] # []) [])
       (connection (Data 0 [0] # plays [18] @ Data 2 [7] # []) []) = (Returned, (q1, q2)) \<and>
       closes q1 = 1 \<and> closes q2 = 1) \<and>
   (\<exists>q1 q2. handle_game_clients (\<lambda>deck. deck)
       (connection (Data 0 [0] # plays (replicate 26 5) @ []) [])
       (connection (Data 0 [0] # plays (replicate 26 18) @ []) []) = (Returned, (q1, q2)) \<and>
       closes q1 = 0 \<and> closes q2 = 0)"
proof -
  have deck: "mset ((\<lambda>deck. deck) [0..51]) = mset [0..51::int]" by simp
  have ok: "list_all (\<lambda>ok. ok) []" by simp
  have r1: "recv (connection [Data 2 [5]] []) 2 = (Inr [2, 5], connection [] [])"
    by (simp add: recv_def connection_def)
  have r2: "recv (connection [Data 0 [0]] []) 2 = (Inr [0, 0], connection [] [])"
    by (simp add: recv_def connection_def)
  note th = session_close_counts[of "\<lambda>deck. deck" "[]" "[]", OF deck ok ok,
      of "connection [Data 2 [5]] []" "[2, 5]" "connection [] []"
         "connection [Data 0 [0]] []" "[0, 0]" "connection [] []"
         "[5]" 1 "[18]" 0 2 0 "[]" 7 "[]" "replicate 26 5" "replicate 26 18" "[]" "[]"]
  from th r1 r2 show ?thesis by simp
qed

text \<open>
  The claim as stated fails on normal completion: this session plays its 26 rounds
  and returns, and neither connection has been closed.
\<close>

theorem completed_session_not_closed_counterexample:
  "fst (handle_game_clients (\<lambda>deck. deck)
          (connection (Data 0 [0] # plays (replicate 26 5)) [])
          (connection (Data 0 [0] # plays (replicate 26 18)) [])) = Returned \<and>
   closes (fst (snd (handle_game_clients (\<lambda>deck. deck)
          (connection (Data 0 [0] # plays (replicate 26 5)) [])
          (connection (Data 0 [0] # plays (replicate 26 18)) [])))) = 0 \<and>
   closes (snd (snd (handle_game_clients (\<lambda>deck. deck)
          (connection (Data 0 [0] # plays (replicate 26 5)) [])
          (connection (Data 0 [0] # plays (replicate 26 18)) [])))) = 0"
  by code_simp

text \<open>
  Claim C3. The claim asks that a failed send end the session at once. In this
  session the \<^verbatim>\<open>sendall\<close> of the first round's result to player one raises.
  \<^verbatim>\<open>handle_game_clients\<close> calls \<^verbatim>\<open>kill_game\<close> and, having no \<^verbatim>\<open>return\<close> there,
  goes on through rounds 2 to 26: in each of them \<^verbatim>\<open>recv\<close> raises on the closed
  socket, \<^verbatim>\<open>kill_game\<close> is called again, the previous round's cards are compared
  again, \<^verbatim>\<open>sendall\<close> is called on the closed socket and \<^verbatim>\<open>kill_game\<close> once more.
  At the end each connection has been closed 51 times and player one's socket has
  seen 26 failed \<^verbatim>\<open>sendall\<close> calls after the hand.
\<close>

theorem send_failure_does_not_end_session:
  "fst (handle_game_clients (\<lambda>deck. deck)
          (connection (Data 0 [0] # plays (replicate 26 5)) [True, False])
          (connection (Data 0 [0] # plays (replicate 26 18)) [])) = Returned \<and>
   closes (fst (snd (handle_game_clients (\<lambda>deck. deck)
          (connection (Data 0 [0] # plays (replicate 26 5)) [True, False])
          (connection (Data 0 [0] # plays (replicate 26 18)) [])))) = 51 \<and>
   closes (snd (snd (handle_game_clients (\<lambda>deck. deck)
          (connection (Data 0 [0] # plays (replicate 26 5)) [True, False])
          (connection (Data 0 [0] # plays (replicate 26 18)) [])))) = 51 \<and>
   map snd (sent (fst (snd (handle_game_clients (\<lambda>deck. deck)
          (connection (Data 0 [0] # plays (replicate 26 5)) [True, False])
          (connection (Data 0 [0] # plays (replicate 26 18)) []))))) =
     True # replicate 26 False"
  by code_simp

text \<open>
  At this input the WantGame check is passed (both initial messages are the bytes
  0, 0), and each connection ends up closed more than once.
\<close>

theorem send_failure_does_not_end_session_witness:
  "1 < closes (fst (snd (handle_game_clients (\<lambda>deck. deck)
          (connection (Data 0 [0] # plays (replicate 26 5)) [True, False])
          (connection (Data 0 [0] # plays (replicate 26 18)) [])))) \<and>
   1 < closes (snd (snd (handle_game_clients (\<lambda>deck. deck)
          (connection (Data 0 [0] # plays (replicate 26 5)) [True, False])
          (connection (Data 0 [0] # plays (replicate 26 18)) []))))"
  using send_failure_does_not_end_session by simp

section \<open>The client\<close>

lemma reader_readexactly_enough:
  "n \<le> length (pending r) \<Longrightarrow>
   reader_readexactly r n = Inr (take n (pending r), r\<lparr>pending := drop n (pending r)\<rparr>)"
  by (simp add: reader_readexactly_def)

lemma reader_readexactly_short:
  "length (pending r) < n \<Longrightarrow> reader_readexactly r n = Inl (ending r)"
  by (simp add: reader_readexactly_def)

lemma play_hand_step:
  assumes "2 \<le> length (pending (reader st))"
  shows "play_hand (c # cs) st =
           play_hand cs
             (st\<lparr>written := written st @ [[2, c]],
                 reader := (reader st)\<lparr>pending := drop 2 (pending (reader st))\<rparr>,
                 myscore := myscore st +
                   (if pending (reader st) ! 1 = 0 then 1
                    else if pending (reader st) ! 1 = 2 then - 1 else 0)\<rparr>)"
  using assms by (auto simp: reader_readexactly_enough Let_def uint_byte_0 uint_byte_2)

lemma play_hand_completes:
  "2 * length cs \<le> length (pending (reader st)) \<Longrightarrow>
   \<exists>st'. play_hand cs st = (None, st') \<and>
         written st' = written st @ map (\<lambda>c. [2, c]) cs \<and>
         myscore st' = myscore st +
           (\<Sum>i<length cs. if pending (reader st) ! (2 * i + 1) = 0 then 1
                            else if pending (reader st) ! (2 * i + 1) = 2 then - 1 else 0)"
proof (induction cs arbitrary: st)
  case Nil
  then show ?case by simp
next
  case (Cons c cs)
  let ?p = "pending (reader st)"
  let ?pts = "\<lambda>b::byte. if b = 0 then 1 else if b = 2 then - 1 else (0::int)"
  from Cons.prems have two: "2 \<le> length ?p" by simp
  define st2 where "st2 = st\<lparr>written := written st @ [[2, c]],
      reader := (reader st)\<lparr>pending := drop 2 ?p\<rparr>,
      myscore := myscore st + ?pts (?p ! 1)\<rparr>"
  have step: "play_hand (c # cs) st = play_hand cs st2"
    unfolding st2_def by (rule play_hand_step[OF two])
  have "2 * length cs \<le> length (pending (reader st2))"
    using Cons.prems by (simp add: st2_def)
  from Cons.IH[OF this] obtain st' where
    run: "play_hand cs st2 = (None, st')" and
    wr: "written st' = written st2 @ map (\<lambda>c. [2, c]) cs" and
    sc: "myscore st' = myscore st2 + (\<Sum>i<length cs. ?pts (pending (reader st2) ! (2 * i + 1)))"
    by blast
  define g where "g = (\<lambda>i. ?pts (?p ! (2 * i + 1)))"
  have idx: "?pts (pending (reader st2) ! (2 * i + 1)) = g (Suc i)" if "i < length cs" for i
    using that Cons.prems by (simp add: st2_def g_def add.commute)
  have "(\<Sum>i<length cs. ?pts (pending (reader st2) ! (2 * i + 1))) = (\<Sum>i<length cs. g (Suc i))"
  proof (rule sum.cong[OF refl])
    fix i assume "i \<in> {..<length cs}"
    then have "i < length cs" by simp
    then show "?pts (pending (reader st2) ! (2 * i + 1)) = g (Suc i)" by (rule idx)
  qed
  moreover have "myscore st2 = myscore st + g 0"
    by (simp add: st2_def g_def)
  ultimately have "myscore st' = myscore st + (g 0 + (\<Sum>i<length cs. g (Suc i)))"
    using sc by simp
  also have "g 0 + (\<Sum>i<length cs. g (Suc i)) = (\<Sum>i<length (c # cs). g i)"
  proof -
    have "length (c # cs) = Suc (length cs)" by simp
    then show ?thesis by (simp only: sum.lessThan_Suc_shift)
  qed
  finally have sc': "myscore st' = myscore st + (\<Sum>i<length (c # cs). ?pts (?p ! (2 * i + 1)))"
    unfolding g_def .
  have wr': "written st' = written st @ map (\<lambda>c. [2, c]) (c # cs)"
    using wr by (simp add: st2_def)
  from run step have "play_hand (c # cs) st = (None, st')" by simp
  with wr' sc' show ?case by blast
qed

lemma play_hand_short:
  "length (pending (reader st)) < 2 * length cs \<Longrightarrow> fst (play_hand cs st) \<noteq> None"
proof (induction cs arbitrary: st)
  case Nil
  then show ?case by simp
next
  case (Cons c cs)
  show ?case
  proof (cases "2 \<le> length (pending (reader st))")
    case False
    then show ?thesis by (simp add: reader_readexactly_def Let_def)
  next
    case True
    show ?thesis
      unfolding play_hand_step[OF True]
      by (rule Cons.IH) (use Cons.prems True in simp)
  qed
qed

text \<open>
  Claim C8. A run of \<^verbatim>\<open>client\<close> that plays all 26 rounds (it returns 1) has
  received at least 27 + 52 bytes. It has written the WantGame message and then, in
  order, one PlayCard message for each of the 26 cards that follow the tag of the
  GameStart message. Its score is the sum over the 26 rounds of +1 when the result
  byte (the second byte of the round's answer) is WIN (0), -1 when it is LOSE (2) and
  0 otherwise, and it logs won when the score is positive, lost when it is negative
  and drew when it is zero.
\<close>

theorem client_plays_hand_and_scores:
  assumes compl: "returned (client connected) = 1"
  shows "\<exists>rd score.
           connected = Inr rd \<and> 79 \<le> length (pending rd) \<and>
           messages (client connected) =
             [0, 0] # map (\<lambda>c. [2, c]) (take 26 (drop 1 (pending rd))) \<and>
           score = (\<Sum>i<26. if pending rd ! (28 + 2 * i) = 0 then 1
                            else if pending rd ! (28 + 2 * i) = 2 then - 1 else 0) \<and>
           final_score (client connected) = Some score \<and>
           logged (client connected) =
             Some (if score > 0 then ''won'' else if score < 0 then ''lost'' else ''drew'')"
proof -
  from compl obtain rd where conn: "connected = Inr rd"
    by (cases connected) (simp_all add: client_def)
  have l27: "27 \<le> length (pending rd)"
  proof (rule ccontr)
    assume "\<not> 27 \<le> length (pending rd)"
    then have "reader_readexactly rd 27 = Inl (ending rd)"
      by (simp add: reader_readexactly_def)
    with compl conn show False by (simp add: client_def)
  qed
  define st0 where "st0 = \<lparr>reader = rd\<lparr>pending := drop 27 (pending rd)\<rparr>,
     written = [[0, 0]], myscore = 0\<rparr>"
  define hand where "hand = drop 1 (take 27 (pending rd))"
  have lh: "length hand = 26" using l27 by (simp add: hand_def)
  have hand_eq: "hand = take 26 (drop 1 (pending rd))"
    by (simp add: hand_def drop_take)
  have cl: "client connected =
     (case play_hand hand st0 of
        (Some e, st) \<Rightarrow> \<lparr>returned = 0, messages = written st, final_score = None, logged = None\<rparr>
      | (None, st) \<Rightarrow> \<lparr>returned = 1, messages = written st, final_score = Some (myscore st),
           logged = Some (if myscore st > 0 then ''won'' else if myscore st < 0 then ''lost''
                          else ''drew'')\<rparr>)"
    using l27 by (simp add: client_def conn reader_readexactly_enough hand_def st0_def)
  have l79: "79 \<le> length (pending rd)"
  proof (rule ccontr)
    assume "\<not> 79 \<le> length (pending rd)"
    then have "length (pending (reader st0)) < 2 * length hand"
      using l27 lh by (simp add: st0_def)
    from play_hand_short[OF this] obtain e st where "play_hand hand st0 = (Some e, st)"
      by (cases "play_hand hand st0") auto
    with compl cl show False by simp
  qed
  then have "2 * length hand \<le> length (pending (reader st0))"
    using lh by (simp add: st0_def)
  from play_hand_completes[OF this] obtain st' where
    run: "play_hand hand st0 = (None, st')" and
    wr: "written st' = written st0 @ map (\<lambda>c. [2, c]) hand" and
    sc: "myscore st' = myscore st0 +
           (\<Sum>i<length hand. if pending (reader st0) ! (2 * i + 1) = 0 then 1
                            else if pending (reader st0) ! (2 * i + 1) = 2 then - 1 else 0)"
    by blast
  let ?pts = "\<lambda>b::byte. if b = 0 then 1 else if b = 2 then - 1 else (0::int)"
  have idx: "?pts (pending (reader st0) ! (2 * i + 1)) = ?pts (pending rd ! (28 + 2 * i))"
    if "i < 26" for i
  proof -
    have "pending (reader st0) ! (2 * i + 1) = pending rd ! (27 + (2 * i + 1))"
      using that l79 by (simp add: st0_def)
    also have "27 + (2 * i + 1) = 28 + 2 * i" by simp
    finally show ?thesis by (simp only:)
  qed
  have "(\<Sum>i<26. ?pts (pending (reader st0) ! (2 * i + 1))) =
        (\<Sum>i<26. ?pts (pending rd ! (28 + 2 * i)))"
  proof (rule sum.cong[OF refl])
    fix i :: nat assume "i \<in> {..<26}"
    then have "i < 26" by simp
    then show "?pts (pending (reader st0) ! (2 * i + 1)) = ?pts (pending rd ! (28 + 2 * i))"
      by (rule idx)
  qed
  with sc lh have sc': "myscore st' = (\<Sum>i<26. ?pts (pending rd ! (28 + 2 * i)))"
    by (simp add: st0_def)
  show ?thesis
    using conn l79 cl run wr sc' by (simp add: st0_def hand_eq)
qed

theorem client_plays_hand_and_scores_witness:
  "returned (client (Inr \<lparr>pending = 1 # replicate 26 5 @ concat (replicate 26 [3, 0]),
                          ending = IncompleteReadError\<rparr>)) = 1 \<and>
   (\<exists>rd score.
      Inr \<lparr>pending = 1 # replicate 26 5 @ concat (replicate 26 [3, 0]),
           ending = IncompleteReadError\<rparr> = (Inr rd :: client_exn + stream_reader) \<and>
      79 \<le> length (pending rd) \<and>
      final_score (client (Inr \<lparr>pending = 1 # replicate 26 5 @ concat (replicate 26 [3, 0]),
                          ending = IncompleteReadError\<rparr>)) = Some score \<and>
      logged (client (Inr \<lparr>pending = 1 # replicate 26 5 @ concat (replicate 26 [3, 0]),
                          ending = IncompleteReadError\<rparr>)) =
         Some (if score > 0 then ''won'' else if score < 0 then ''lost'' else ''drew''))"
proof -
  have h: "returned (client (Inr \<lparr>pending = 1 # replicate 26 5 @ concat (replicate 26 [3, 0]),
                          ending = IncompleteReadError\<rparr>)) = 1"
    by code_simp
  from client_plays_hand_and_scores[OF h] h show ?thesis by blast
qed

end
